theory Spec2Isabelle
  imports Main "HOL-Library.Word" "HOL-Library.Sublist"
begin

section \<open>Data model of \<^verbatim>\<open>itext2bin.py\<close>\<close>

text \<open>
  A \<^verbatim>\<open>bytes\<close> object is a list of 8-bit words. A Python \<^verbatim>\<open>str\<close> is a list of Unicode
  code points; \<open>lit\<close> turns an ASCII literal of the source into such a list.
\<close>

type_synonym byte = "8 word"
type_synonym pystr = "nat list"

definition lit :: "string \<Rightarrow> pystr" where
  "lit s = map of_char s"

text \<open>
  The text of an exception is kept as the pieces of the f-string that builds it: the
  literal parts, and each interpolated value tagged with the conversion the f-string
  applies to it (\<^verbatim>\<open>str\<close> of a string or of an integer, \<^verbatim>\<open>repr\<close> of the command list,
  \<^verbatim>\<open>bytes.decode('utf-8', 'replace')\<close>).
\<close>

datatype fmt =
    Fmt_lit string
  | Fmt_str pystr
  | Fmt_int int
  | Fmt_repr "pystr list"
  | Fmt_decode "byte list"

type_synonym message = "fmt list"

text \<open>
  The exceptions the module can raise. \<open>LlamaZipNotFoundError\<close> and
  \<open>LlamaZipModelPathError\<close> are the two classes the module declares; \<open>BinasciiError\<close>
  is \<^verbatim>\<open>binascii.Error\<close> from \<^verbatim>\<open>base64.b64decode\<close>, \<open>UnicodeEncodeError\<close> comes from
  \<^verbatim>\<open>text.encode("utf-8")\<close>, and \<open>OSError\<close> stands for whatever \<^verbatim>\<open>subprocess.run\<close>
  itself raises when the child cannot be started.
\<close>

datatype error =
    LlamaZipNotFoundError message
  | LlamaZipModelPathError message
  | RuntimeError message
  | ValueError message
  | BinasciiError
  | UnicodeEncodeError
  | OSError message

record LlamaZipOptions =
  n_ctx :: int
  window_overlap :: pystr
  n_gpu_layers :: int
  compressed_format :: pystr

definition LlamaZipOptions_default :: LlamaZipOptions where
  "LlamaZipOptions_default =
     \<lparr>n_ctx = 8192, window_overlap = lit ''25%'', n_gpu_layers = - 1,
      compressed_format = lit ''base64''\<rparr>"

text \<open>What \<^verbatim>\<open>subprocess.run\<close> returns: the \<^verbatim>\<open>CompletedProcess\<close> fields the code reads.\<close>

record completed_process =
  returncode :: int
  stdout :: "byte list"
  stderr :: "byte list"

text \<open>
  The surroundings of a call: the answer of \<^verbatim>\<open>shutil.which\<close>, of \<^verbatim>\<open>os.environ.get\<close>, and
  of \<^verbatim>\<open>subprocess.run\<close> on a command and the bytes on its standard input. Every use of
  them is recorded as an event, in order, so that what a call did to the outside is
  part of its result.
\<close>

record world =
  which :: "pystr \<Rightarrow> pystr option"
  environ_get :: "pystr \<Rightarrow> pystr option"
  subprocess_run :: "pystr list \<Rightarrow> byte list \<Rightarrow> error + completed_process"

datatype event =
    Ev_which pystr
  | Ev_environ_get pystr
  | Ev_run "pystr list" "byte list"

section \<open>Library functions the module calls\<close>

text \<open>\<^verbatim>\<open>str(n)\<close> for an integer: decimal digits, with a minus sign when negative.\<close>

fun str_nat :: "nat \<Rightarrow> pystr" where
  "str_nat n = (if n < 10 then [48 + n] else str_nat (n div 10) @ [48 + n mod 10])"

definition str_int :: "int \<Rightarrow> pystr" where
  "str_int i = (if i < 0 then 45 # str_nat (nat (- i)) else str_nat (nat i))"

text \<open>
  \<^verbatim>\<open>str.encode("utf-8")\<close>: one to four bytes per code point; a surrogate cannot be
  encoded and raises. A value from \<open>0x110000\<close> on is no code point of a \<^verbatim>\<open>str\<close>.
\<close>

definition utf8_encode_cp :: "nat \<Rightarrow> byte list option" where
  "utf8_encode_cp c =
     (if c < 0x80 then Some [of_nat c]
      else if c < 0x800 then Some [of_nat (0xC0 + c div 64), of_nat (0x80 + c mod 64)]
      else if 0xD800 \<le> c \<and> c < 0xE000 then None
      else if c < 0x10000 then
        Some [of_nat (0xE0 + c div 4096), of_nat (0x80 + (c div 64) mod 64),
              of_nat (0x80 + c mod 64)]
      else if c < 0x110000 then
        Some [of_nat (0xF0 + c div 262144), of_nat (0x80 + (c div 4096) mod 64),
              of_nat (0x80 + (c div 64) mod 64), of_nat (0x80 + c mod 64)]
      else None)"

fun utf8_encode :: "pystr \<Rightarrow> error + byte list" where
  "utf8_encode [] = Inr []"
| "utf8_encode (c # cs) =
     (case utf8_encode_cp c of
        None \<Rightarrow> Inl UnicodeEncodeError
      | Some bs \<Rightarrow> (case utf8_encode cs of Inl e \<Rightarrow> Inl e | Inr rest \<Rightarrow> Inr (bs @ rest)))"

text \<open>
  \<^verbatim>\<open>bytes.strip()\<close> without argument removes leading and trailing ASCII whitespace:
  space, tab, line feed, carriage return, vertical tab, form feed.
\<close>

definition is_ascii_space :: "byte \<Rightarrow> bool" where
  "is_ascii_space b = (b = 32 \<or> b = 9 \<or> b = 10 \<or> b = 13 \<or> b = 11 \<or> b = 12)"

definition strip :: "byte list \<Rightarrow> byte list" where
  "strip bs = rev (dropWhile is_ascii_space (rev (dropWhile is_ascii_space bs)))"

subsection \<open>Base64\<close>

text \<open>
  Modelled from the spec: \<^verbatim>\<open>base64.b64encode\<close> and \<^verbatim>\<open>base64.b64decode(_, validate=True)\<close>
  belong to Python's standard library and are not part of the repository. The spec
  calls them the text-safe encoding, "standard base64", with the standard 64-symbol
  alphabet and padding per the standard. The encoder is the standard one: the
  alphabet \<open>A-Z a-z 0-9 + /\<close>, three bytes to four symbols, \<open>=\<close> padding in the last
  group. The decoder is the library's strict mode (\<^verbatim>\<open>binascii.a2b_base64\<close> with
  \<^verbatim>\<open>strict_mode\<close> set, as CPython 3.11 has it), followed symbol by symbol.
\<close>

definition b64_alphabet :: "byte list" where
  "b64_alphabet =
     map of_char ''ABCDEFGHIJKLMNOPQRSTUVWXYZabcdefghijklmnopqrstuvwxyz0123456789+/''"

definition b64_pad :: byte where
  "b64_pad = 61"

definition b2a :: "nat \<Rightarrow> byte" where
  "b2a i = b64_alphabet ! i"

fun index_of :: "'a \<Rightarrow> 'a list \<Rightarrow> nat option" where
  "index_of x [] = None"
| "index_of x (y # ys) =
     (if x = y then Some 0 else (case index_of x ys of None \<Rightarrow> None | Some i \<Rightarrow> Some (Suc i)))"

definition a2b :: "byte \<Rightarrow> nat option" where
  "a2b c = index_of c b64_alphabet"

fun b64encode :: "byte list \<Rightarrow> byte list" where
  "b64encode [] = []"
| "b64encode [a] =
     (let n = unat a * 16 in [b2a (n div 64), b2a (n mod 64), b64_pad, b64_pad])"
| "b64encode [a, b] =
     (let n = (unat a * 256 + unat b) * 4
      in [b2a (n div 4096), b2a ((n div 64) mod 64), b2a (n mod 64), b64_pad])"
| "b64encode (a # b # c # rest) =
     (let n = unat a * 65536 + unat b * 256 + unat c
      in [b2a (n div 262144), b2a ((n div 4096) mod 64), b2a ((n div 64) mod 64),
          b2a (n mod 64)] @ b64encode rest)"

text \<open>
  The decoder's loop. Its state is the position in the current group of four
  (\<open>quad_pos\<close>), the bits left over from the previous symbol (\<open>leftchar\<close>), the number of
  padding symbols counted (\<open>pads\<close>), whether padding has begun, and the bytes written
  so far.
  \<^item> A padding symbol ends the input when the group has at least two symbols and
    padding fills it up to four; anything after it is an error. Any other padding
    symbol is passed over, and is counted only when the group has at least two
    symbols. So \<open>=\<close> after a complete group is passed over, and \<^verbatim>\<open>QUJD=\<close> decodes like
    \<^verbatim>\<open>QUJD\<close>.
  \<^item> A symbol outside the alphabet is an error, and so is a symbol of the alphabet
    after padding has begun.
  \<^item> A symbol of the alphabet gives its six bits: the second, third and fourth
    symbol of a group each complete a byte. The shifted parts do not overlap, so the
    bitwise or of the C code is an addition.
  \<^item> At the end of the input a group that is not complete is an error.
  The unused low bits of the last symbol before padding are not looked at.
\<close>

fun a2b_loop ::
    "nat \<Rightarrow> nat \<Rightarrow> nat \<Rightarrow> bool \<Rightarrow> byte list \<Rightarrow> byte list \<Rightarrow> error + byte list" where
  "a2b_loop quad_pos leftchar pads padding_started out [] =
     (if quad_pos \<noteq> 0 then Inl BinasciiError else Inr out)"
| "a2b_loop quad_pos leftchar pads padding_started out (this_ch # rest) =
     (if this_ch = b64_pad then
        (if quad_pos \<ge> 2 \<and> quad_pos + (pads + 1) \<ge> 4 then
           (if rest \<noteq> [] then Inl BinasciiError else Inr out)
         else
           a2b_loop quad_pos leftchar (if quad_pos \<ge> 2 then pads + 1 else pads) True out rest)
      else
        (case a2b this_ch of
           None \<Rightarrow> Inl BinasciiError
         | Some v \<Rightarrow>
             if padding_started then Inl BinasciiError
             else if quad_pos = 0 then a2b_loop 1 v 0 False out rest
             else if quad_pos = 1 then
               a2b_loop 2 (v mod 16) 0 False (out @ [of_nat (leftchar * 4 + v div 16)]) rest
             else if quad_pos = 2 then
               a2b_loop 3 (v mod 4) 0 False (out @ [of_nat (leftchar * 16 + v div 4)]) rest
             else
               a2b_loop 0 0 0 False (out @ [of_nat (leftchar * 64 + v)]) rest))"

text \<open>Strict mode refuses padding at the very start, then runs the loop.\<close>

definition b64decode :: "byte list \<Rightarrow> error + byte list" where
  "b64decode s =
     (case s of
        [] \<Rightarrow> a2b_loop 0 0 0 False [] s
      | c # _ \<Rightarrow> if c = b64_pad then Inl BinasciiError else a2b_loop 0 0 0 False [] s)"

section \<open>The module's functions\<close>

subsection \<open>\<^verbatim>\<open>_frame_with_1byte_len_header\<close>\<close>

definition payload_too_large_msg :: "nat \<Rightarrow> message" where
  "payload_too_large_msg n =
     [Fmt_lit ''Compressed payload too large for 8-bit length header: '',
      Fmt_int (int n), Fmt_lit '' bytes'']"

definition frame_with_1byte_len_header :: "byte list \<Rightarrow> error + byte list" where
  "frame_with_1byte_len_header payload =
     (if length payload > 0xFF then Inl (ValueError (payload_too_large_msg (length payload)))
      else Inr ([of_nat (length payload)] @ payload))"

subsection \<open>\<^verbatim>\<open>_run_llama_zip_compress_base64\<close>\<close>

definition not_found_msg :: "pystr \<Rightarrow> message" where
  "not_found_msg llama_zip_bin =
     [Fmt_lit ''Could not find `'', Fmt_str llama_zip_bin,
      Fmt_lit ''` on PATH. Install llama-zip and ensure the CLI is available, e.g. `pip3 install .` in the llama-zip repo.'']"

definition missing_model_path_text :: string where
  "missing_model_path_text =
     ''Missing model path. Provide `model_path=...` or set ITEXT2BIN_MODEL_PATH.''"

definition missing_model_path_msg :: message where
  "missing_model_path_msg = [Fmt_lit missing_model_path_text]"

definition compression_failed_msg :: "pystr list \<Rightarrow> int \<Rightarrow> byte list \<Rightarrow> message" where
  "compression_failed_msg cmd rc err =
     [Fmt_lit ''llama-zip compression failed.\<newline>Command: '', Fmt_repr cmd,
      Fmt_lit ''\<newline>Exit code: '', Fmt_int rc,
      Fmt_lit ''\<newline>stderr:\<newline>'', Fmt_decode err]"

text \<open>The command line: \<^verbatim>\<open>llama-zip <llm_path> [options] <mode>\<close>, the text going to stdin.\<close>

definition llama_zip_cmd :: "pystr \<Rightarrow> pystr \<Rightarrow> LlamaZipOptions \<Rightarrow> pystr list" where
  "llama_zip_cmd exe model_path options =
     [exe, model_path,
      lit ''-f'', compressed_format options,
      lit ''--n-ctx'', str_int (n_ctx options),
      lit ''-w'', window_overlap options,
      lit ''--n-gpu-layers'', str_int (n_gpu_layers options),
      lit ''-c'']"

text \<open>
  \<^verbatim>\<open>if not exe\<close> holds for \<^verbatim>\<open>None\<close> and for the empty string; \<^verbatim>\<open>if not model_path\<close> for
  the empty string. The result is the value returned or the exception raised, together
  with the events of the call in the order they happened.
\<close>

definition run_llama_zip_compress_base64 ::
    "world \<Rightarrow> pystr \<Rightarrow> pystr \<Rightarrow> LlamaZipOptions \<Rightarrow> pystr \<Rightarrow> (error + byte list) \<times> event list" where
  "run_llama_zip_compress_base64 w text model_path options llama_zip_bin =
     (let exe = which w llama_zip_bin;
          tr1 = [Ev_which llama_zip_bin]
      in case exe of
           None \<Rightarrow> (Inl (LlamaZipNotFoundError (not_found_msg llama_zip_bin)), tr1)
         | Some exe \<Rightarrow>
             if exe = [] then
               (Inl (LlamaZipNotFoundError (not_found_msg llama_zip_bin)), tr1)
             else if model_path = [] then
               (Inl (LlamaZipModelPathError missing_model_path_msg), tr1)
             else
               (let cmd = llama_zip_cmd exe model_path options
                in case utf8_encode text of
                     Inl e \<Rightarrow> (Inl e, tr1)
                   | Inr input \<Rightarrow>
                       (let tr2 = tr1 @ [Ev_run cmd input]
                        in case subprocess_run w cmd input of
                             Inl e \<Rightarrow> (Inl e, tr2)
                           | Inr proc \<Rightarrow>
                               if returncode proc \<noteq> 0 then
                                 (Inl (RuntimeError
                                    (compression_failed_msg cmd (returncode proc) (stderr proc))),
                                  tr2)
                               else
                                 (let out = strip (stdout proc)
                                  in case b64decode out of
                                       Inl e \<Rightarrow> (Inl e, tr2)
                                     | Inr _ \<Rightarrow> (Inr out, tr2)))))"

subsection \<open>\<^verbatim>\<open>IText2Bin\<close>\<close>

definition ITEXT2BIN_MODEL_PATH :: pystr where
  "ITEXT2BIN_MODEL_PATH = lit ''ITEXT2BIN_MODEL_PATH''"

text \<open>\<^verbatim>\<open>model_path or ""\<close>: the left operand when it is truthy, the empty string otherwise.\<close>

definition or_empty :: "pystr option \<Rightarrow> pystr" where
  "or_empty model_path =
     (case model_path of None \<Rightarrow> [] | Some p \<Rightarrow> if p = [] then [] else p)"

definition IText2Bin ::
    "world \<Rightarrow> pystr \<Rightarrow> pystr option \<Rightarrow> LlamaZipOptions option \<Rightarrow> pystr
       \<Rightarrow> (error + byte list) \<times> event list" where
  "IText2Bin w text model_path options llama_zip_bin =
     (let options = (case options of None \<Rightarrow> LlamaZipOptions_default | Some opts \<Rightarrow> opts);
          (model_path, tr0) =
            (case model_path of
               None \<Rightarrow> (environ_get w ITEXT2BIN_MODEL_PATH, [Ev_environ_get ITEXT2BIN_MODEL_PATH])
             | Some p \<Rightarrow> (Some p, []));
          (res, tr1) =
            run_llama_zip_compress_base64 w text (or_empty model_path) options llama_zip_bin;
          tr = tr0 @ tr1
      in case res of
           Inl e \<Rightarrow> (Inl e, tr)
         | Inr compressed_b64 \<Rightarrow>
             (case b64decode compressed_b64 of
                Inl e \<Rightarrow> (Inl e, tr)
              | Inr payload \<Rightarrow>
                  (case frame_with_1byte_len_header payload of
                     Inl e \<Rightarrow> (Inl e, tr)
                   | Inr framed \<Rightarrow> (Inr (b64encode framed), tr))))"

subsection \<open>Counting child processes\<close>

text \<open>The number of \<^verbatim>\<open>subprocess.run\<close> calls among the events of a call.\<close>

definition spawn_count :: "event list \<Rightarrow> nat" where
  "spawn_count tr = length (filter (\<lambda>ev. case ev of Ev_run _ _ \<Rightarrow> True | _ \<Rightarrow> False) tr)"

section \<open>Concrete surroundings\<close>

text \<open>
  Stand-ins for the outside world, in the manner of a stub executable: a search path
  that finds the tool or does not, an environment with or without the model variable,
  a child that prints \<^verbatim>\<open>" QUJD\n"\<close> (the base64 of \<^verbatim>\<open>ABC\<close>, with whitespace around it)
  and exits 0, one that prints \<^verbatim>\<open>"QUJD=\n"\<close> (a complete group with a padding symbol
  too many), one that prints \<^verbatim>\<open>"QU JD\n"\<close> (a space inside), and a child that prints
  \<^verbatim>\<open>bad\<close> on its error stream and exits 2.
\<close>

definition which_found :: "pystr \<Rightarrow> pystr option" where
  "which_found llama_zip_bin = Some (lit ''/usr/local/bin/'' @ llama_zip_bin)"

definition which_missing :: "pystr \<Rightarrow> pystr option" where
  "which_missing llama_zip_bin = None"

definition environ_unset :: "pystr \<Rightarrow> pystr option" where
  "environ_unset name = None"

definition environ_model :: "pystr \<Rightarrow> pystr option" where
  "environ_model name =
     (if name = ITEXT2BIN_MODEL_PATH then Some (lit ''/models/q4_k_m.gguf'') else None)"

definition child_prints_QUJD :: "pystr list \<Rightarrow> byte list \<Rightarrow> error + completed_process" where
  "child_prints_QUJD cmd input =
     Inr \<lparr>returncode = 0, stdout = [32, 81, 85, 74, 68, 10], stderr = []\<rparr>"



definition child_exits_2 :: "pystr list \<Rightarrow> byte list \<Rightarrow> error + completed_process" where
  "child_exits_2 cmd input = Inr \<lparr>returncode = 2, stdout = [], stderr = [98, 97, 100]\<rparr>"

definition world_ok :: world where
  "world_ok = \<lparr>which = which_found, environ_get = environ_unset, subprocess_run = child_prints_QUJD\<rparr>"



definition world_failing :: world where
  "world_failing = \<lparr>which = which_found, environ_get = environ_unset, subprocess_run = child_exits_2\<rparr>"

definition world_no_tool :: world where
  "world_no_tool = \<lparr>which = which_missing, environ_get = environ_unset, subprocess_run = child_prints_QUJD\<rparr>"

definition world_no_tool_env :: world where
  "world_no_tool_env = \<lparr>which = which_missing, environ_get = environ_model, subprocess_run = child_prints_QUJD\<rparr>"

definition world_env :: world where
  "world_env = \<lparr>which = which_found, environ_get = environ_model, subprocess_run = child_prints_QUJD\<rparr>"

section \<open>Base64: decoding inverts encoding\<close>

text \<open>The alphabet has 64 distinct symbols, and the padding symbol is none of them.\<close>

lemma length_b64_alphabet: "length b64_alphabet = 64"
  by (simp add: b64_alphabet_def)

lemma distinct_b64_alphabet: "distinct b64_alphabet"
  by (simp add: b64_alphabet_def)

lemma pad_notin_alphabet: "b64_pad \<notin> set b64_alphabet"
  by (simp add: b64_alphabet_def b64_pad_def)

lemma index_of_nth: "distinct xs \<Longrightarrow> i < length xs \<Longrightarrow> index_of (xs ! i) xs = Some i"
proof (induction xs arbitrary: i)
  case Nil
  then show ?case by simp
next
  case (Cons y ys)
  show ?case
  proof (cases i)
    case 0
    then show ?thesis by simp
  next
    case (Suc j)
    with Cons.prems have "j < length ys" "distinct ys" "ys ! j \<noteq> y"
      by auto
    with Cons.IH [of j] Suc show ?thesis by simp
  qed
qed

lemma a2b_b2a: "i < 64 \<Longrightarrow> a2b (b2a i) = Some i"
  unfolding a2b_def b2a_def
  by (rule index_of_nth) (simp_all add: distinct_b64_alphabet length_b64_alphabet)

lemma b2a_not_pad: "i < 64 \<Longrightarrow> b2a i \<noteq> b64_pad"
proof
  assume "i < 64" and eq: "b2a i = b64_pad"
  then have "b64_alphabet ! i \<in> set b64_alphabet"
    by (intro nth_mem) (simp add: length_b64_alphabet)
  with eq pad_notin_alphabet show False by (simp add: b2a_def)
qed



lemma bytes3_div:
  fixes x y z :: nat
  assumes "x < 256" "y < 256" "z < 256"
  shows "(x * 65536 + y * 256 + z) div 262144 < 64"
    and "(x * 65536 + y * 256 + z) div 65536 = x"
    and "(x * 65536 + y * 256 + z) div 256 mod 256 = y"
    and "(x * 65536 + y * 256 + z) mod 256 = z"
proof -
  have "x * 65536 + y * 256 + z < 64 * 262144"
    using assms by linarith
  then show "(x * 65536 + y * 256 + z) div 262144 < 64"
    by (rule less_mult_imp_div_less)
  have r: "y * 256 + z < 65536" using assms by linarith
  have "(x * 65536 + (y * 256 + z)) div 65536 = x"
    using r by simp
  then show "(x * 65536 + y * 256 + z) div 65536 = x"
    by (simp add: add.assoc)
  have eq: "x * 65536 + y * 256 + z = (x * 256 + y) * 256 + z"
    by simp
  have d: "(x * 65536 + y * 256 + z) div 256 = x * 256 + y"
    unfolding eq using assms by simp
  show "(x * 65536 + y * 256 + z) div 256 mod 256 = y"
    unfolding d using assms by simp
  show "(x * 65536 + y * 256 + z) mod 256 = z"
    unfolding eq using assms by (simp only: mod_mult_self3 mod_less)
qed

lemma bytes2_div:
  fixes x y :: nat
  assumes "x < 256" "y < 256"
  shows "(x * 256 + y) * 4 div 4096 < 64"
    and "(x * 256 + y) * 4 div 1024 = x"
    and "(x * 256 + y) * 4 div 4 mod 256 = y"
proof -
  have "x * 256 + y < 65536"
    using assms by linarith
  then have "(x * 256 + y) * 4 < 64 * 4096"
    by simp
  then show "(x * 256 + y) * 4 div 4096 < 64"
    by (rule less_mult_imp_div_less)
  have "(x * 1024 + y * 4) div 1024 = x"
    using assms by simp
  then show "(x * 256 + y) * 4 div 1024 = x"
    by (simp add: algebra_simps)
  show "(x * 256 + y) * 4 div 4 mod 256 = y"
    using assms by simp
qed

lemma bytes1_div:
  fixes x :: nat
  assumes "x < 256"
  shows "x * 16 div 64 < 64"
proof -
  have "x * 16 < 64 * 64" using assms by linarith
  then show "x * 16 div 64 < 64"
    by (rule less_mult_imp_div_less)
qed


lemma unat_byte_less: "unat (a :: byte) < 256"
  using unsigned_less [of a, where 'a = nat] by simp

lemma dec1: "(x::nat) div 4 * 4 + (x mod 4 * 16 + y div 16) div 16 = x" if "y < 256"
  using that by simp

lemma dec2: "((x::nat) mod 4 * 16 + y div 16) mod 16 * 16 + (y mod 16 * 4 + z div 64) div 4 = y"
  if "y < 256" "z < 256"
proof -
  have a: "y div 16 < 16" using that by simp
  have b: "z div 64 < 4" using that by simp
  have "(x mod 4 * 16 + y div 16) mod 16 = y div 16" using a by simp
  moreover have "(y mod 16 * 4 + z div 64) div 4 = y mod 16" using b by simp
  ultimately show ?thesis by simp
qed

lemma dec3: "((y::nat) mod 16 * 4 + z div 64) mod 4 * 64 + z mod 64 = z" if "z < 256"
proof -
  have b: "z div 64 < 4" using that by simp
  have "(y mod 16 * 4 + z div 64) mod 4 = z div 64" using b by simp
  then show ?thesis by simp
qed

lemma divmod_unique:
  fixes m q k r :: nat
  assumes "m = q * k + r" and "r < k"
  shows "m div k = q" and "m mod k = r"
  using assms by simp_all

lemma idx:
  fixes x y z :: nat
  assumes "x < 256" "y < 256" "z < 256"
  defines "n \<equiv> x * 65536 + y * 256 + z"
  shows "n div 262144 = x div 4"
    and "n div 4096 mod 64 = x mod 4 * 16 + y div 16"
    and "n div 64 mod 64 = y mod 16 * 4 + z div 64"
    and "n mod 64 = z mod 64"
proof -
  define a a' q r u v
    where "a = x div 4" and "a' = x mod 4" and "q = y div 16" and "r = y mod 16"
      and "u = z div 64" and "v = z mod 64"
  have xe: "x = a * 4 + a'" and ye: "y = q * 16 + r" and ze: "z = u * 64 + v"
    by (simp_all add: a_def a'_def q_def r_def u_def v_def)
  have b: "a' < 4" "r < 16" "v < 64" "q < 16" "u < 4"
    using assms by (simp_all add: a'_def r_def v_def q_def u_def)
  have n1: "n = a * 262144 + (a' * 65536 + q * 4096 + r * 256 + u * 64 + v)"
    unfolding n_def xe ye ze by (simp add: algebra_simps)
  have n2: "n = (a * 64 + (a' * 16 + q)) * 4096 + (r * 256 + u * 64 + v)"
    unfolding n_def xe ye ze by (simp add: algebra_simps)
  have n3: "n = ((a * 64 + (a' * 16 + q)) * 64 + (r * 4 + u)) * 64 + v"
    unfolding n_def xe ye ze by (simp add: algebra_simps)
  have "a' * 65536 + q * 4096 + r * 256 + u * 64 + v < 262144"
    using b by linarith
  with n1 show "n div 262144 = x div 4"
    unfolding a_def [symmetric] by (rule divmod_unique)
  have "r * 256 + u * 64 + v < 4096"
    using b by linarith
  with n2 have "n div 4096 = a * 64 + (a' * 16 + q)"
    by (rule divmod_unique)
  moreover have "(a * 64 + (a' * 16 + q)) mod 64 = a' * 16 + q"
    by (rule divmod_unique(2) [OF refl]) (use b in linarith)
  ultimately show "n div 4096 mod 64 = x mod 4 * 16 + y div 16"
    by (simp only: a'_def q_def)
  have "n div 64 = (a * 64 + (a' * 16 + q)) * 64 + (r * 4 + u)"
    using n3 b(3) by (rule divmod_unique)
  moreover have "((a * 64 + (a' * 16 + q)) * 64 + (r * 4 + u)) mod 64 = r * 4 + u"
    by (rule divmod_unique(2) [OF refl]) (use b in linarith)
  ultimately show "n div 64 mod 64 = y mod 16 * 4 + z div 64"
    by (simp only: r_def u_def)
  show "n mod 64 = z mod 64"
    unfolding v_def [symmetric] using n3 b(3) by (rule divmod_unique)
qed

lemma idx2:
  fixes x y :: nat
  assumes "x < 256" "y < 256"
  defines "n \<equiv> (x * 256 + y) * 4"
  shows "n div 4096 = x div 4"
    and "n div 64 mod 64 = x mod 4 * 16 + y div 16"
    and "n mod 64 = y mod 16 * 4"
proof -
  define a a' q r
    where "a = x div 4" and "a' = x mod 4" and "q = y div 16" and "r = y mod 16"
  have xe: "x = a * 4 + a'" and ye: "y = q * 16 + r"
    by (simp_all add: a_def a'_def q_def r_def)
  have b: "a' < 4" "r < 16" "q < 16"
    using assms by (simp_all add: a'_def r_def q_def)
  have n1: "n = a * 4096 + (a' * 1024 + q * 64 + r * 4)"
    unfolding n_def xe ye by (simp add: algebra_simps)
  have n2: "n = (a * 64 + (a' * 16 + q)) * 64 + r * 4"
    unfolding n_def xe ye by (simp add: algebra_simps)
  have "a' * 1024 + q * 64 + r * 4 < 4096"
    using b by linarith
  with n1 show "n div 4096 = x div 4"
    unfolding a_def [symmetric] by (rule divmod_unique)
  have r4: "r * 4 < 64"
    using b by linarith
  with n2 have "n div 64 = a * 64 + (a' * 16 + q)"
    by (rule divmod_unique)
  moreover have "(a * 64 + (a' * 16 + q)) mod 64 = a' * 16 + q"
    by (rule divmod_unique(2) [OF refl]) (use b in linarith)
  ultimately show "n div 64 mod 64 = x mod 4 * 16 + y div 16"
    by (simp only: a'_def q_def)
  show "n mod 64 = y mod 16 * 4"
    unfolding r_def [symmetric] using n2 r4 by (rule divmod_unique)
qed

lemma idx1:
  fixes x :: nat
  shows "x * 16 div 64 = x div 4" and "x * 16 mod 64 = x mod 4 * 16"
proof -
  have n: "x * 16 = x div 4 * 64 + x mod 4 * 16"
  proof -
    have "x * 16 = (x div 4 * 4 + x mod 4) * 16" by simp
    then show ?thesis by (simp only: distrib_right mult.assoc)
  qed
  have r: "x mod 4 * 16 < 64"
  proof -
    have "x mod 4 < 4" by simp
    then show ?thesis by linarith
  qed
  from n r show "x * 16 div 64 = x div 4" by (rule divmod_unique)
  from n r show "x * 16 mod 64 = x mod 4 * 16" by (rule divmod_unique)
qed

text \<open>What the loop does with a full group, and with the two padded endings.\<close>

lemma a2b_loop_quad:
  assumes "a2b c1 = Some i1" "a2b c2 = Some i2" "a2b c3 = Some i3" "a2b c4 = Some i4"
    and "c1 \<noteq> b64_pad" "c2 \<noteq> b64_pad" "c3 \<noteq> b64_pad" "c4 \<noteq> b64_pad"
  shows "a2b_loop 0 lc pads False out (c1 # c2 # c3 # c4 # rest)
         = a2b_loop 0 0 0 False
             (out @ [of_nat (i1 * 4 + i2 div 16), of_nat (i2 mod 16 * 16 + i3 div 4),
                     of_nat (i3 mod 4 * 64 + i4)]) rest"
  using assms by simp

lemma a2b_loop_triple_pad:
  assumes "a2b c1 = Some i1" "a2b c2 = Some i2" "a2b c3 = Some i3"
    and "c1 \<noteq> b64_pad" "c2 \<noteq> b64_pad" "c3 \<noteq> b64_pad"
  shows "a2b_loop 0 lc pads False out [c1, c2, c3, b64_pad]
         = Inr (out @ [of_nat (i1 * 4 + i2 div 16), of_nat (i2 mod 16 * 16 + i3 div 4)])"
  using assms by simp

lemma a2b_loop_pair_pad:
  assumes "a2b c1 = Some i1" "a2b c2 = Some i2"
    and "c1 \<noteq> b64_pad" "c2 \<noteq> b64_pad"
  shows "a2b_loop 0 lc pads False out [c1, c2, b64_pad, b64_pad]
         = Inr (out @ [of_nat (i1 * 4 + i2 div 16)])"
  using assms by simp


lemma dec_group3:
  fixes x y z :: nat
  assumes "x < 256" "y < 256" "z < 256"
  defines "n \<equiv> x * 65536 + y * 256 + z"
  shows "n div 262144 * 4 + n div 4096 mod 64 div 16 = x"
    and "n div 4096 mod 64 mod 16 * 16 + n div 64 mod 64 div 4 = y"
    and "n div 64 mod 64 mod 4 * 64 + n mod 64 = z"
  unfolding n_def idx [OF assms(1-3)]
  using assms(2,3) by (simp_all only: dec1 dec2 dec3)

lemma dec_group2:
  fixes x y :: nat
  assumes "x < 256" "y < 256"
  defines "n \<equiv> (x * 256 + y) * 4"
  shows "n div 4096 * 4 + n div 64 mod 64 div 16 = x"
    and "n div 64 mod 64 mod 16 * 16 + n mod 64 div 4 = y"
proof -
  show "n div 4096 * 4 + n div 64 mod 64 div 16 = x"
    unfolding n_def idx2 [OF assms(1,2)] using assms(2) by (rule dec1)
  have a: "y div 16 < 16" using assms by simp
  have "(x mod 4 * 16 + y div 16) mod 16 = y div 16" using a by simp
  moreover have "y mod 16 * 4 div 4 = y mod 16" by simp
  ultimately show "n div 64 mod 64 mod 16 * 16 + n mod 64 div 4 = y"
    unfolding n_def idx2 [OF assms(1,2)] by simp
qed

lemma dec_group1:
  fixes x :: nat
  shows "x * 16 div 64 * 4 + x * 16 mod 64 div 16 = x"
  unfolding idx1 by simp

lemma of_nat_unat_byte: "n = unat a \<Longrightarrow> (of_nat n :: byte) = a"
  by simp

lemma a2b_loop_encode: "a2b_loop 0 0 0 False out (b64encode bs) = Inr (out @ bs)"
proof (induction bs arbitrary: out rule: b64encode.induct)
  case 1
  show ?case by simp
next
  case (2 a)
  define n where "n = unat a * 16"
  have i: "n div 64 < 64"
    unfolding n_def by (rule bytes1_div) (rule unat_byte_less)
  have "a2b_loop 0 0 0 False out [b2a (n div 64), b2a (n mod 64), b64_pad, b64_pad]
        = Inr (out @ [of_nat (n div 64 * 4 + n mod 64 div 16)])"
    by (rule a2b_loop_pair_pad) (simp_all add: a2b_b2a b2a_not_pad i)
  moreover have "(of_nat (n div 64 * 4 + n mod 64 div 16) :: byte) = a"
    unfolding n_def by (rule of_nat_unat_byte) (rule dec_group1)
  ultimately show ?case
    by (simp only: b64encode.simps Let_def n_def)
next
  case (3 a b)
  define n where "n = (unat a * 256 + unat b) * 4"
  have i: "n div 4096 < 64"
    unfolding n_def by (rule bytes2_div) (rule unat_byte_less)+
  have "a2b_loop 0 0 0 False out
          [b2a (n div 4096), b2a (n div 64 mod 64), b2a (n mod 64), b64_pad]
        = Inr (out @ [of_nat (n div 4096 * 4 + n div 64 mod 64 div 16),
                      of_nat (n div 64 mod 64 mod 16 * 16 + n mod 64 div 4)])"
    by (rule a2b_loop_triple_pad) (simp_all add: a2b_b2a b2a_not_pad i)
  moreover have "(of_nat (n div 4096 * 4 + n div 64 mod 64 div 16) :: byte) = a"
    unfolding n_def
    by (rule of_nat_unat_byte) (rule dec_group2(1) [OF unat_byte_less unat_byte_less])
  moreover have "(of_nat (n div 64 mod 64 mod 16 * 16 + n mod 64 div 4) :: byte) = b"
    unfolding n_def
    by (rule of_nat_unat_byte) (rule dec_group2(2) [OF unat_byte_less unat_byte_less])
  ultimately show ?case
    by (simp only: b64encode.simps Let_def n_def)
next
  case (4 a b c rest)
  define n where "n = unat a * 65536 + unat b * 256 + unat c"
  have i: "n div 262144 < 64"
    unfolding n_def by (rule bytes3_div) (rule unat_byte_less)+
  have "a2b_loop 0 0 0 False out
          (b2a (n div 262144) # b2a (n div 4096 mod 64) # b2a (n div 64 mod 64)
             # b2a (n mod 64) # b64encode rest)
        = a2b_loop 0 0 0 False
            (out @ [of_nat (n div 262144 * 4 + n div 4096 mod 64 div 16),
                    of_nat (n div 4096 mod 64 mod 16 * 16 + n div 64 mod 64 div 4),
                    of_nat (n div 64 mod 64 mod 4 * 64 + n mod 64)]) (b64encode rest)"
    by (rule a2b_loop_quad) (simp_all add: a2b_b2a b2a_not_pad i)
  moreover have "(of_nat (n div 262144 * 4 + n div 4096 mod 64 div 16) :: byte) = a"
    unfolding n_def
    by (rule of_nat_unat_byte)
       (rule dec_group3(1) [OF unat_byte_less unat_byte_less unat_byte_less])
  moreover have "(of_nat (n div 4096 mod 64 mod 16 * 16 + n div 64 mod 64 div 4) :: byte) = b"
    unfolding n_def
    by (rule of_nat_unat_byte)
       (rule dec_group3(2) [OF unat_byte_less unat_byte_less unat_byte_less])
  moreover have "(of_nat (n div 64 mod 64 mod 4 * 64 + n mod 64) :: byte) = c"
    unfolding n_def
    by (rule of_nat_unat_byte)
       (rule dec_group3(3) [OF unat_byte_less unat_byte_less unat_byte_less])
  ultimately have "a2b_loop 0 0 0 False out
          (b2a (n div 262144) # b2a (n div 4096 mod 64) # b2a (n div 64 mod 64)
             # b2a (n mod 64) # b64encode rest)
        = a2b_loop 0 0 0 False (out @ [a, b, c]) (b64encode rest)"
    by (simp only:)
  also have "\<dots> = Inr ((out @ [a, b, c]) @ rest)"
    by (rule "4.IH" [OF refl])
  finally show ?case
    by (simp only: b64encode.simps Let_def n_def append_Cons append_Nil append_assoc)
qed

lemma b64encode_eq_Nil: "b64encode bs = [] \<longleftrightarrow> bs = []"
  by (induction bs rule: b64encode.induct) (simp_all add: Let_def)

lemma hd_b64encode_not_pad: "b64encode bs = c # cs \<Longrightarrow> c \<noteq> b64_pad"
proof (induction bs rule: b64encode.induct)
  case 1
  then show ?case by simp
next
  case (2 a)
  have "unat a * 16 div 64 < 64"
    by (rule bytes1_div) (rule unat_byte_less)
  then have "b2a (unat a * 16 div 64) \<noteq> b64_pad"
    by (rule b2a_not_pad)
  with 2 show ?case
    by (simp only: b64encode.simps Let_def list.inject) blast
next
  case (3 a b)
  have "(unat a * 256 + unat b) * 4 div 4096 < 64"
    by (rule bytes2_div) (rule unat_byte_less)+
  then have "b2a ((unat a * 256 + unat b) * 4 div 4096) \<noteq> b64_pad"
    by (rule b2a_not_pad)
  with 3 show ?case
    by (simp only: b64encode.simps Let_def list.inject) blast
next
  case (4 a b c rest)
  have "(unat a * 65536 + unat b * 256 + unat c) div 262144 < 64"
    by (rule bytes3_div) (rule unat_byte_less)+
  then have "b2a ((unat a * 65536 + unat b * 256 + unat c) div 262144) \<noteq> b64_pad"
    by (rule b2a_not_pad)
  with "4.prems" show ?case
    by (simp only: b64encode.simps Let_def append_Cons list.inject) blast
qed

lemma b64_roundtrip: "b64decode (b64encode bs) = Inr bs"
proof (cases "b64encode bs")
  case Nil
  then have "bs = []" by (simp only: b64encode_eq_Nil)
  then show ?thesis by (simp add: b64decode_def)
next
  case (Cons c cs)
  then have "c \<noteq> b64_pad" by (rule hd_b64encode_not_pad)
  with Cons have "b64decode (b64encode bs) = a2b_loop 0 0 0 False [] (b64encode bs)"
    by (simp add: b64decode_def)
  then show ?thesis
    by (simp only: a2b_loop_encode append_Nil)
qed

lemma a2b_loop_error:
  "a2b_loop quad_pos leftchar pads padding_started out s = Inl e \<Longrightarrow> e = BinasciiError"
  by (induction quad_pos leftchar pads padding_started out s rule: a2b_loop.induct)
     (auto split: if_splits option.splits)

lemma b64decode_error:
  assumes "b64decode s = Inl e"
  shows "e = BinasciiError"
proof (cases s)
  case Nil
  with assms show ?thesis by (simp add: b64decode_def)
next
  case (Cons c cs)
  show ?thesis
  proof (cases "c = b64_pad")
    case True
    with Cons assms show ?thesis by (simp add: b64decode_def)
  next
    case False
    with Cons assms have "a2b_loop 0 0 0 False [] (c # cs) = Inl e"
      by (simp add: b64decode_def del: a2b_loop.simps)
    then show ?thesis by (rule a2b_loop_error)
  qed
qed

section \<open>Framing\<close>

lemma unat_length_byte: "n \<le> 255 \<Longrightarrow> unat (of_nat n :: byte) = n"
  by (simp add: unat_of_nat)

text \<open>
  C1. For every payload of at most 255 bytes (255 included), the framer returns the
  payload with one byte put in front: the result is one byte longer than the payload,
  its first byte is the payload's length, and the bytes after it are the payload
  itself, unchanged and in order.
\<close>

theorem frame_within_limit:
  assumes "length p \<le> 255"
  shows "\<exists>hdr. frame_with_1byte_len_header p = Inr (hdr # p) \<and> unat hdr = length p
           \<and> length (hdr # p) = length p + 1 \<and> (hdr # p) ! 0 = hdr \<and> drop 1 (hdr # p) = p"
  using assms by (simp add: frame_with_1byte_len_header_def unat_length_byte)

theorem frame_within_limit_witness:
  "length (replicate 255 (120 :: byte)) \<le> 255
   \<and> frame_with_1byte_len_header (replicate 255 120) = Inr (255 # replicate 255 120)"
proof -
  have h: "length (replicate 255 (120 :: byte)) \<le> 255" by simp
  from frame_within_limit [OF h] obtain hdr :: byte
    where r: "frame_with_1byte_len_header (replicate 255 120) = Inr (hdr # replicate 255 120)"
      and u: "unat hdr = length (replicate 255 (120 :: byte))"
    by blast
  from u have "unat hdr = unat (255 :: byte)" by simp
  then have "hdr = 255" by (simp only: word_unat_eq_iff [symmetric])
  with r h show ?thesis by simp
qed

text \<open>
  C2. A payload of more than 255 bytes (256 included) is rejected with the
  oversized-payload \<open>ValueError\<close>. There is no partial success: for every payload the
  framer either raises that error or returns the whole payload behind its length
  byte, never a truncated or split one.
\<close>

theorem frame_oversized_rejected:
  "(frame_with_1byte_len_header p = Inl (ValueError (payload_too_large_msg (length p)))
      \<or> frame_with_1byte_len_header p = Inr (of_nat (length p) # p))
   \<and> (255 < length p \<longrightarrow>
        frame_with_1byte_len_header p = Inl (ValueError (payload_too_large_msg (length p))))"
  by (simp add: frame_with_1byte_len_header_def)

theorem frame_oversized_rejected_witness:
  "255 < length (replicate 256 (120 :: byte))
   \<and> frame_with_1byte_len_header (replicate 256 (120 :: byte))
       = Inl (ValueError (payload_too_large_msg 256))"
  using frame_oversized_rejected [of "replicate 256 (120 :: byte)"] by simp

text \<open>
  C4. Decoding the base64 encoding of any byte sequence gives the sequence back; in
  particular a framed payload survives encoding and decoding unchanged.
\<close>

theorem b64_decode_encode:
  "b64decode (b64encode b) = Inr b
   \<and> (frame_with_1byte_len_header p = Inr framed \<longrightarrow> b64decode (b64encode framed) = Inr framed)"
  by (simp add: b64_roundtrip)

theorem b64_decode_encode_witness:
  "frame_with_1byte_len_header [104, 101, 108, 108, 111, 0, 119, 111, 114, 108, 100]
     = Inr [11, 104, 101, 108, 108, 111, 0, 119, 111, 114, 108, 100]
   \<and> b64decode (b64encode [11, 104, 101, 108, 108, 111, 0, 119, 111, 114, 108, 100])
     = Inr [11, 104, 101, 108, 108, 111, 0, 119, 111, 114, 108, 100]"
proof -
  have f: "frame_with_1byte_len_header [104, 101, 108, 108, 111, 0, 119, 111, 114, 108, 100]
             = Inr [11, 104, 101, 108, 108, 111, 0, 119, 111, 114, 108, 100]"
    by (simp add: frame_with_1byte_len_header_def)
  from b64_decode_encode [of "[]" "[104, 101, 108, 108, 111, 0, 119, 111, 114, 108, 100]"
         "[11, 104, 101, 108, 108, 111, 0, 119, 111, 114, 108, 100]"] f
  show ?thesis by blast
qed

section \<open>The invocation step\<close>

lemma run_not_found:
  assumes "which w llama_zip_bin = None \<or> which w llama_zip_bin = Some []"
  shows "run_llama_zip_compress_base64 w text model_path options llama_zip_bin
         = (Inl (LlamaZipNotFoundError (not_found_msg llama_zip_bin)), [Ev_which llama_zip_bin])"
  using assms by (auto simp: run_llama_zip_compress_base64_def)

lemma run_no_model:
  assumes "which w llama_zip_bin = Some exe" and "exe \<noteq> []"
  shows "run_llama_zip_compress_base64 w text [] options llama_zip_bin
         = (Inl (LlamaZipModelPathError missing_model_path_msg), [Ev_which llama_zip_bin])"
  using assms by (simp add: run_llama_zip_compress_base64_def)

lemma run_spawned:
  assumes "which w llama_zip_bin = Some exe" and "exe \<noteq> []" and "model_path \<noteq> []"
    and "utf8_encode text = Inr input"
    and "subprocess_run w (llama_zip_cmd exe model_path options) input = Inr proc"
  shows "run_llama_zip_compress_base64 w text model_path options llama_zip_bin
         = (if returncode proc \<noteq> 0 then
              Inl (RuntimeError (compression_failed_msg (llama_zip_cmd exe model_path options)
                     (returncode proc) (stderr proc)))
            else if isl (b64decode (strip (stdout proc))) then Inl BinasciiError
            else Inr (strip (stdout proc)),
            [Ev_which llama_zip_bin, Ev_run (llama_zip_cmd exe model_path options) input])"
proof (cases "b64decode (strip (stdout proc))")
  case (Inl e)
  then have "e = BinasciiError" by (rule b64decode_error)
  with Inl assms show ?thesis
    by (simp add: run_llama_zip_compress_base64_def Let_def)
next
  case (Inr payload)
  with assms show ?thesis
    by (simp add: run_llama_zip_compress_base64_def Let_def)
qed

lemma run_Inr_decodes:
  assumes "fst (run_llama_zip_compress_base64 w text model_path options llama_zip_bin) = Inr t"
  shows "\<exists>payload. b64decode t = Inr payload"
  using assms
  by (auto simp: run_llama_zip_compress_base64_def Let_def
           split: option.splits if_splits sum.splits)

lemma run_model_path_error:
  assumes "fst (run_llama_zip_compress_base64 w text model_path options llama_zip_bin)
           = Inl (LlamaZipModelPathError m)"
  shows "\<exists>exe. which w llama_zip_bin = Some exe \<and> exe \<noteq> []"
  using assms
  by (auto simp: run_llama_zip_compress_base64_def Let_def
           split: option.splits if_splits sum.splits)

lemma run_trace:
  "snd (run_llama_zip_compress_base64 w text model_path options llama_zip_bin) = [Ev_which llama_zip_bin]
   \<or> (\<exists>exe input. which w llama_zip_bin = Some exe \<and> utf8_encode text = Inr input \<and> model_path \<noteq> [] \<and>
         snd (run_llama_zip_compress_base64 w text model_path options llama_zip_bin)
           = [Ev_which llama_zip_bin, Ev_run (llama_zip_cmd exe model_path options) input])"
  by (auto simp: run_llama_zip_compress_base64_def Let_def
           split: option.splits if_splits sum.splits)

lemma spawn_count_run:
  "spawn_count (snd (run_llama_zip_compress_base64 w text model_path options llama_zip_bin)) \<le> 1"
  using run_trace [of w "text" model_path options llama_zip_bin]
  by (auto simp: spawn_count_def)

lemma no_environ_get_run:
  "Ev_environ_get k \<notin> set (snd (run_llama_zip_compress_base64 w text model_path options llama_zip_bin))"
  using run_trace [of w "text" model_path options llama_zip_bin]
  by auto

lemma run_environ_irrelevant:
  "run_llama_zip_compress_base64 (w\<lparr>environ_get := e\<rparr>) text model_path options llama_zip_bin
   = run_llama_zip_compress_base64 w text model_path options llama_zip_bin"
  by (simp add: run_llama_zip_compress_base64_def Let_def split: option.splits sum.splits)

lemma or_empty_Some: "or_empty (Some p) = p"
  by (simp add: or_empty_def)

lemma IText2Bin_unfold:
  "IText2Bin w text model_path options llama_zip_bin =
     (let opts = (case options of None \<Rightarrow> LlamaZipOptions_default | Some x \<Rightarrow> x);
          mp = (case model_path of None \<Rightarrow> or_empty (environ_get w ITEXT2BIN_MODEL_PATH) | Some p \<Rightarrow> p);
          tr0 = (case model_path of None \<Rightarrow> [Ev_environ_get ITEXT2BIN_MODEL_PATH] | Some p \<Rightarrow> []);
          r = run_llama_zip_compress_base64 w text mp opts llama_zip_bin
      in (case fst r of
            Inl e \<Rightarrow> Inl e
          | Inr compressed_b64 \<Rightarrow>
              (case b64decode compressed_b64 of
                 Inl e \<Rightarrow> Inl e
               | Inr payload \<Rightarrow>
                   (case frame_with_1byte_len_header payload of
                      Inl e \<Rightarrow> Inl e
                    | Inr framed \<Rightarrow> Inr (b64encode framed))),
          tr0 @ snd r))"
  by (simp add: IText2Bin_def Let_def or_empty_Some split: option.splits prod.splits sum.splits)

lemma rev_split_dropWhile:
  "rev (dropWhile P (rev xs)) @ rev (takeWhile P (rev xs)) = xs"
proof -
  have "rev (dropWhile P (rev xs)) @ rev (takeWhile P (rev xs))
        = rev (takeWhile P (rev xs) @ dropWhile P (rev xs))"
    by (simp only: rev_append)
  also have "\<dots> = rev (rev xs)"
    by (simp only: takeWhile_dropWhile_id)
  finally show ?thesis by simp
qed


lemma strip_trimmed:
  assumes "strip bs \<noteq> []"
  shows "\<not> is_ascii_space (hd (strip bs)) \<and> \<not> is_ascii_space (last (strip bs))"
proof -
  define m where "m = dropWhile is_ascii_space bs"
  define r where "r = dropWhile is_ascii_space (rev m)"
  have s: "strip bs = rev r"
    by (simp add: strip_def m_def r_def)
  with assms have rne: "r \<noteq> []" by simp
  then have "\<not> is_ascii_space (hd r)"
    unfolding r_def by (rule hd_dropWhile)
  then have l: "\<not> is_ascii_space (last (strip bs))"
    using rne by (simp add: s last_rev)
  have mm: "m = rev r @ rev (takeWhile is_ascii_space (rev m))"
    unfolding r_def by (rule rev_split_dropWhile [symmetric])
  from rne have "hd (rev r @ rev (takeWhile is_ascii_space (rev m))) = hd (rev r)"
    by simp
  with mm have hm: "hd m = hd (strip bs)" by (simp add: s)
  from mm rne have "m \<noteq> []" by auto
  then have "\<not> is_ascii_space (hd m)"
    unfolding m_def by (rule hd_dropWhile)
  with hm l show ?thesis by simp
qed

section \<open>Claims about the invocation step and the pipeline\<close>

lemma utf8_encode_hi: "utf8_encode (lit ''hi'') = Inr [104, 105]"
  by (simp add: lit_def utf8_encode_cp_def)

lemma lit_nonempty: "lit ''m.gguf'' \<noteq> []" "lit ''/usr/local/bin/'' @ b \<noteq> []"
  by (simp_all add: lit_def)

lemma b64decode_QUJD: "b64decode [81, 85, 74, 68] = Inr [65, 66, 67]"
  by (simp add: b64decode_def a2b_def b64_alphabet_def b64_pad_def)

lemma strip_QUJD: "strip [32, 81, 85, 74, 68, 10] = [81, 85, 74, 68]"
  by (simp add: strip_def is_ascii_space_def)

lemma b64encode_3ABC: "b64encode [3, 65, 66, 67] = [65, 48, 70, 67, 81, 119, 61, 61]"
  by (simp add: b2a_def b64_alphabet_def b64_pad_def)








text \<open>
  C6. When the child process exits with a nonzero status, the invocation step raises
  the "compression failed" \<open>RuntimeError\<close>; its message carries the constructed
  command, the exit status and the captured standard error. \<open>IText2Bin\<close> hands the
  same error to its caller, and the child was run exactly once: there is no retry.
\<close>

theorem run_nonzero_exit_fails:
  assumes "which w llama_zip_bin = Some exe" and "exe \<noteq> []" and "model_path \<noteq> []"
    and "utf8_encode text = Inr input"
    and "subprocess_run w (llama_zip_cmd exe model_path options) input = Inr proc"
    and "returncode proc \<noteq> 0"
  defines "cmd \<equiv> llama_zip_cmd exe model_path options"
  defines "msg \<equiv> compression_failed_msg cmd (returncode proc) (stderr proc)"
  shows "run_llama_zip_compress_base64 w text model_path options llama_zip_bin
           = (Inl (RuntimeError msg), [Ev_which llama_zip_bin, Ev_run cmd input])
         \<and> Fmt_repr cmd \<in> set msg \<and> Fmt_int (returncode proc) \<in> set msg
         \<and> Fmt_decode (stderr proc) \<in> set msg
         \<and> IText2Bin w text (Some model_path) (Some options) llama_zip_bin
           = (Inl (RuntimeError msg), [Ev_which llama_zip_bin, Ev_run cmd input])
         \<and> spawn_count (snd (IText2Bin w text (Some model_path) (Some options) llama_zip_bin)) = 1"
proof -
  have r: "run_llama_zip_compress_base64 w text model_path options llama_zip_bin
           = (Inl (RuntimeError msg), [Ev_which llama_zip_bin, Ev_run cmd input])"
    using run_spawned [OF assms(1-5)] assms(6) by (simp add: cmd_def msg_def)
  have m: "Fmt_repr cmd \<in> set msg \<and> Fmt_int (returncode proc) \<in> set msg
           \<and> Fmt_decode (stderr proc) \<in> set msg"
    by (simp add: msg_def compression_failed_msg_def)
  have i: "IText2Bin w text (Some model_path) (Some options) llama_zip_bin
           = (Inl (RuntimeError msg), [Ev_which llama_zip_bin, Ev_run cmd input])"
    by (simp add: IText2Bin_unfold r)
  have "spawn_count [Ev_which llama_zip_bin, Ev_run cmd input] = 1"
    by (simp add: spawn_count_def)
  with r m i show ?thesis by simp
qed

theorem run_nonzero_exit_fails_witness:
  "IText2Bin world_failing (lit ''hi'') (Some (lit ''m.gguf'')) (Some LlamaZipOptions_default)
     (lit ''llama-zip'')
   = (Inl (RuntimeError (compression_failed_msg
        (llama_zip_cmd (lit ''/usr/local/bin/'' @ lit ''llama-zip'') (lit ''m.gguf'')
           LlamaZipOptions_default) 2 [98, 97, 100])),
      [Ev_which (lit ''llama-zip''),
       Ev_run (llama_zip_cmd (lit ''/usr/local/bin/'' @ lit ''llama-zip'') (lit ''m.gguf'')
           LlamaZipOptions_default) [104, 105]])"
proof -
  let ?proc = "\<lparr>returncode = 2, stdout = [], stderr = [98, 97, 100]\<rparr>"
  have 1: "which world_failing (lit ''llama-zip'') = Some (lit ''/usr/local/bin/'' @ lit ''llama-zip'')"
    by (simp add: world_failing_def which_found_def)
  have 5: "subprocess_run world_failing
             (llama_zip_cmd (lit ''/usr/local/bin/'' @ lit ''llama-zip'') (lit ''m.gguf'')
                LlamaZipOptions_default) [104, 105] = Inr ?proc"
    by (simp add: world_failing_def child_exits_2_def)
  have 6: "returncode ?proc \<noteq> 0" by simp
  from run_nonzero_exit_fails [OF 1 lit_nonempty(2) lit_nonempty(1) utf8_encode_hi 5 6]
  show ?thesis
    by (simp only: completed_process.select_convs)
qed

text \<open>
  C10. The executable lookup comes before the model-path check: it is the first
  event of every call, and when the executable is not found (\<^verbatim>\<open>which\<close> gives \<^verbatim>\<open>None\<close> or
  an empty string) the call raises \<open>LlamaZipNotFoundError\<close> whatever the model path is,
  also an empty one. The missing-configuration error is raised only when the
  executable was found.
\<close>

theorem tool_lookup_precedes_model_check:
  "((which w llama_zip_bin = None \<or> which w llama_zip_bin = Some []) \<longrightarrow>
      run_llama_zip_compress_base64 w text model_path options llama_zip_bin
        = (Inl (LlamaZipNotFoundError (not_found_msg llama_zip_bin)), [Ev_which llama_zip_bin])
      \<and> fst (IText2Bin w text model_path_arg options_arg llama_zip_bin)
        = Inl (LlamaZipNotFoundError (not_found_msg llama_zip_bin)))
   \<and> (fst (run_llama_zip_compress_base64 w text model_path options llama_zip_bin)
        = Inl (LlamaZipModelPathError m) \<longrightarrow>
      (\<exists>exe. which w llama_zip_bin = Some exe \<and> exe \<noteq> []))
   \<and> (fst (IText2Bin w text model_path_arg options_arg llama_zip_bin)
        = Inl (LlamaZipModelPathError m) \<longrightarrow>
      (\<exists>exe. which w llama_zip_bin = Some exe \<and> exe \<noteq> []))
   \<and> hd (snd (run_llama_zip_compress_base64 w text model_path options llama_zip_bin))
        = Ev_which llama_zip_bin"
proof (intro conjI impI)
  assume nf: "which w llama_zip_bin = None \<or> which w llama_zip_bin = Some []"
  then show "run_llama_zip_compress_base64 w text model_path options llama_zip_bin
        = (Inl (LlamaZipNotFoundError (not_found_msg llama_zip_bin)), [Ev_which llama_zip_bin])"
    by (rule run_not_found)
  show "fst (IText2Bin w text model_path_arg options_arg llama_zip_bin)
        = Inl (LlamaZipNotFoundError (not_found_msg llama_zip_bin))"
    by (simp add: IText2Bin_unfold Let_def run_not_found [OF nf])
next
  assume "fst (run_llama_zip_compress_base64 w text model_path options llama_zip_bin)
        = Inl (LlamaZipModelPathError m)"
  then show "\<exists>exe. which w llama_zip_bin = Some exe \<and> exe \<noteq> []"
    by (rule run_model_path_error)
next
  assume a: "fst (IText2Bin w text model_path_arg options_arg llama_zip_bin)
        = Inl (LlamaZipModelPathError m)"
  show "\<exists>exe. which w llama_zip_bin = Some exe \<and> exe \<noteq> []"
  proof (rule ccontr)
    assume "\<not> (\<exists>exe. which w llama_zip_bin = Some exe \<and> exe \<noteq> [])"
    then have nf: "which w llama_zip_bin = None \<or> which w llama_zip_bin = Some []"
      by (cases "which w llama_zip_bin") auto
    have "fst (IText2Bin w text model_path_arg options_arg llama_zip_bin)
        = Inl (LlamaZipNotFoundError (not_found_msg llama_zip_bin))"
      by (simp add: IText2Bin_unfold Let_def run_not_found [OF nf])
    with a show False by simp
  qed
next
  show "hd (snd (run_llama_zip_compress_base64 w text model_path options llama_zip_bin))
        = Ev_which llama_zip_bin"
    using run_trace [of w "text" model_path options llama_zip_bin] by auto
qed

theorem tool_lookup_precedes_model_check_witness:
  "which world_no_tool (lit ''llama-zip'') = None
   \<and> run_llama_zip_compress_base64 world_no_tool (lit ''hi'') [] LlamaZipOptions_default
        (lit ''llama-zip'')
      = (Inl (LlamaZipNotFoundError (not_found_msg (lit ''llama-zip''))),
         [Ev_which (lit ''llama-zip'')])
   \<and> fst (run_llama_zip_compress_base64 world_ok (lit ''hi'') [] LlamaZipOptions_default
        (lit ''llama-zip'')) = Inl (LlamaZipModelPathError missing_model_path_msg)
   \<and> (\<exists>exe. which world_ok (lit ''llama-zip'') = Some exe \<and> exe \<noteq> [])"
proof -
  have n: "which world_no_tool (lit ''llama-zip'') = None"
    by (simp add: world_no_tool_def which_missing_def)
  have f: "which world_ok (lit ''llama-zip'') = Some (lit ''/usr/local/bin/'' @ lit ''llama-zip'')"
    by (simp add: world_ok_def which_found_def)
  have e: "fst (run_llama_zip_compress_base64 world_ok (lit ''hi'') [] LlamaZipOptions_default
        (lit ''llama-zip'')) = Inl (LlamaZipModelPathError missing_model_path_msg)"
    by (simp add: run_no_model [OF f lit_nonempty(2)])
  from tool_lookup_precedes_model_check
         [of world_no_tool "lit ''llama-zip''" "lit ''hi''" "[]" LlamaZipOptions_default None None]
       n
  have a: "run_llama_zip_compress_base64 world_no_tool (lit ''hi'') [] LlamaZipOptions_default
        (lit ''llama-zip'')
      = (Inl (LlamaZipNotFoundError (not_found_msg (lit ''llama-zip''))),
         [Ev_which (lit ''llama-zip'')])"
    by blast
  from tool_lookup_precedes_model_check
         [of world_ok "lit ''llama-zip''" "lit ''hi''" "[]" LlamaZipOptions_default None None
             missing_model_path_msg]
       e
  have b: "\<exists>exe. which world_ok (lit ''llama-zip'') = Some exe \<and> exe \<noteq> []"
    by blast
  from n a e b show ?thesis by blast
qed

lemma missing_model_path_names:
  "sublist ''model_path'' missing_model_path_text
   \<and> sublist ''ITEXT2BIN_MODEL_PATH'' missing_model_path_text"
proof
  have "missing_model_path_text
        = ''Missing model path. Provide `'' @ ''model_path'' @ ''=...` or set ITEXT2BIN_MODEL_PATH.''"
    by (simp add: missing_model_path_text_def)
  then show "sublist ''model_path'' missing_model_path_text"
    unfolding sublist_def by blast
  have "missing_model_path_text
        = ''Missing model path. Provide `model_path=...` or set '' @ ''ITEXT2BIN_MODEL_PATH'' @ ''.''"
    by (simp add: missing_model_path_text_def)
  then show "sublist ''ITEXT2BIN_MODEL_PATH'' missing_model_path_text"
    unfolding sublist_def by blast
qed

lemma IText2Bin_no_model:
  assumes "which w llama_zip_bin = Some exe" and "exe \<noteq> []"
    and "(case model_path of None \<Rightarrow> or_empty (environ_get w ITEXT2BIN_MODEL_PATH) | Some p \<Rightarrow> p) = []"
  shows "IText2Bin w text model_path options llama_zip_bin
         = (Inl (LlamaZipModelPathError missing_model_path_msg),
            (case model_path of None \<Rightarrow> [Ev_environ_get ITEXT2BIN_MODEL_PATH] | Some p \<Rightarrow> [])
              @ [Ev_which llama_zip_bin])"
  by (simp add: IText2Bin_unfold Let_def assms(3) run_no_model [OF assms(1,2)])

text \<open>
  C7 as stated does not hold: with no model location supplied and the variable unset,
  a call on a machine where the executable is not on the search path raises
  \<open>LlamaZipNotFoundError\<close>, not the missing-configuration error.
\<close>

theorem no_model_location_counterexample:
  "environ_get world_no_tool ITEXT2BIN_MODEL_PATH = None
   \<and> fst (IText2Bin world_no_tool (lit ''hi'') None None (lit ''llama-zip''))
       = Inl (LlamaZipNotFoundError (not_found_msg (lit ''llama-zip'')))
   \<and> fst (IText2Bin world_no_tool (lit ''hi'') None None (lit ''llama-zip''))
       \<noteq> Inl (LlamaZipModelPathError missing_model_path_msg)"
proof -
  have n: "which world_no_tool (lit ''llama-zip'') = None \<or> which world_no_tool (lit ''llama-zip'') = Some []"
    by (simp add: world_no_tool_def which_missing_def)
  have "fst (IText2Bin world_no_tool (lit ''hi'') None None (lit ''llama-zip''))
       = Inl (LlamaZipNotFoundError (not_found_msg (lit ''llama-zip'')))"
    by (simp add: IText2Bin_unfold Let_def run_not_found [OF n])
  then show ?thesis
    by (simp add: world_no_tool_def environ_unset_def)
qed

text \<open>
  C7, amended. If no model location is supplied, that is \<^verbatim>\<open>model_path\<close> is absent and
  \<^verbatim>\<open>ITEXT2BIN_MODEL_PATH\<close> is unset, and the executable is found on the search path, then
  \<open>IText2Bin\<close> fails with \<open>LlamaZipModelPathError\<close>, whose message names both the
  parameter \<^verbatim>\<open>model_path\<close> and the variable \<^verbatim>\<open>ITEXT2BIN_MODEL_PATH\<close>.
\<close>

theorem no_model_location_is_config_error:
  assumes "environ_get w ITEXT2BIN_MODEL_PATH = None"
    and "which w llama_zip_bin = Some exe" and "exe \<noteq> []"
  shows "IText2Bin w text None options llama_zip_bin
         = (Inl (LlamaZipModelPathError missing_model_path_msg),
            [Ev_environ_get ITEXT2BIN_MODEL_PATH, Ev_which llama_zip_bin])
         \<and> missing_model_path_msg = [Fmt_lit missing_model_path_text]
         \<and> sublist ''model_path'' missing_model_path_text
         \<and> sublist ''ITEXT2BIN_MODEL_PATH'' missing_model_path_text"
proof -
  have "(case (None :: pystr option) of None \<Rightarrow> or_empty (environ_get w ITEXT2BIN_MODEL_PATH)
         | Some p \<Rightarrow> p) = []"
    by (simp add: assms(1) or_empty_def)
  from IText2Bin_no_model [OF assms(2,3) this]
  show ?thesis
    by (simp add: missing_model_path_names missing_model_path_msg_def)
qed

theorem no_model_location_is_config_error_witness:
  "IText2Bin world_ok (lit ''hi'') None None (lit ''llama-zip'')
   = (Inl (LlamaZipModelPathError missing_model_path_msg),
      [Ev_environ_get ITEXT2BIN_MODEL_PATH, Ev_which (lit ''llama-zip'')])"
proof -
  have e: "environ_get world_ok ITEXT2BIN_MODEL_PATH = None"
    by (simp add: world_ok_def environ_unset_def)
  have f: "which world_ok (lit ''llama-zip'') = Some (lit ''/usr/local/bin/'' @ lit ''llama-zip'')"
    by (simp add: world_ok_def which_found_def)
  from no_model_location_is_config_error [OF e f lit_nonempty(2)]
  show ?thesis by blast
qed

text \<open>
  C9 as stated does not hold: with an empty \<^verbatim>\<open>model_path\<close> and the variable set, a call
  on a machine where the executable is not on the search path raises
  \<open>LlamaZipNotFoundError\<close>, not the missing-configuration error.
\<close>

theorem empty_model_path_counterexample:
  "environ_get world_no_tool_env ITEXT2BIN_MODEL_PATH = Some (lit ''/models/q4_k_m.gguf'')
   \<and> fst (IText2Bin world_no_tool_env (lit ''hi'') (Some []) None (lit ''llama-zip''))
       = Inl (LlamaZipNotFoundError (not_found_msg (lit ''llama-zip'')))
   \<and> fst (IText2Bin world_no_tool_env (lit ''hi'') (Some []) None (lit ''llama-zip''))
       \<noteq> Inl (LlamaZipModelPathError missing_model_path_msg)"
proof -
  have n: "which world_no_tool_env (lit ''llama-zip'') = None
           \<or> which world_no_tool_env (lit ''llama-zip'') = Some []"
    by (simp add: world_no_tool_env_def which_missing_def)
  have "fst (IText2Bin world_no_tool_env (lit ''hi'') (Some []) None (lit ''llama-zip''))
       = Inl (LlamaZipNotFoundError (not_found_msg (lit ''llama-zip'')))"
    by (simp add: IText2Bin_unfold Let_def run_not_found [OF n])
  then show ?thesis
    by (simp add: world_no_tool_env_def environ_model_def)
qed

text \<open>
  C9, amended. An explicitly supplied empty \<^verbatim>\<open>model_path\<close> suppresses the environment
  fallback: when the executable is found on the search path, the call raises the
  missing-configuration error without looking the variable up, whatever the
  environment holds.
\<close>

theorem empty_model_path_suppresses_fallback:
  assumes "which w llama_zip_bin = Some exe" and "exe \<noteq> []"
  shows "IText2Bin w text (Some []) options llama_zip_bin
         = (Inl (LlamaZipModelPathError missing_model_path_msg), [Ev_which llama_zip_bin])"
proof -
  have "(case Some [] of None \<Rightarrow> or_empty (environ_get w ITEXT2BIN_MODEL_PATH)
         | Some p \<Rightarrow> p) = ([] :: pystr)"
    by simp
  from IText2Bin_no_model [OF assms this]
  show ?thesis by simp
qed

theorem empty_model_path_suppresses_fallback_witness:
  "environ_get world_env ITEXT2BIN_MODEL_PATH = Some (lit ''/models/q4_k_m.gguf'')
   \<and> IText2Bin world_env (lit ''hi'') (Some []) None (lit ''llama-zip'')
     = (Inl (LlamaZipModelPathError missing_model_path_msg), [Ev_which (lit ''llama-zip'')])"
proof -
  have f: "which world_env (lit ''llama-zip'') = Some (lit ''/usr/local/bin/'' @ lit ''llama-zip'')"
    by (simp add: world_env_def which_found_def)
  have e: "environ_get world_env ITEXT2BIN_MODEL_PATH = Some (lit ''/models/q4_k_m.gguf'')"
    by (simp add: world_env_def environ_model_def)
  from empty_model_path_suppresses_fallback [OF f lit_nonempty(2)] e
  show ?thesis by blast
qed

lemma b2a_ascii: "i < 64 \<Longrightarrow> b2a i < 128"
proof -
  assume "i < 64"
  then have "b64_alphabet ! i \<in> set b64_alphabet"
    by (intro nth_mem) (simp add: length_b64_alphabet)
  moreover have "\<forall>c \<in> set b64_alphabet. c < 128"
    by (simp add: b64_alphabet_def)
  ultimately show ?thesis by (simp add: b2a_def)
qed

lemma b64encode_ascii: "list_all (\<lambda>c. c < 128) (b64encode bs)"
proof (induction bs rule: b64encode.induct)
  case 1
  show ?case by simp
next
  case (2 a)
  define n where "n = unat a * 16"
  have "n div 64 < 64"
    unfolding n_def by (rule bytes1_div) (rule unat_byte_less)
  then have "b2a (n div 64) < 128" and "b2a (n mod 64) < 128"
    by (simp_all add: b2a_ascii)
  then have "list_all (\<lambda>c. c < 128) [b2a (n div 64), b2a (n mod 64), b64_pad, b64_pad]"
    by (simp add: b64_pad_def)
  then show ?case
    by (simp only: b64encode.simps Let_def n_def)
next
  case (3 a b)
  define n where "n = (unat a * 256 + unat b) * 4"
  have "n div 4096 < 64"
    unfolding n_def by (rule bytes2_div) (rule unat_byte_less)+
  then have "b2a (n div 4096) < 128" and "b2a ((n div 64) mod 64) < 128" and "b2a (n mod 64) < 128"
    by (simp_all add: b2a_ascii)
  then have "list_all (\<lambda>c. c < 128)
               [b2a (n div 4096), b2a ((n div 64) mod 64), b2a (n mod 64), b64_pad]"
    by (simp add: b64_pad_def)
  then show ?case
    by (simp only: b64encode.simps Let_def n_def)
next
  case (4 a b c rest)
  define n where "n = unat a * 65536 + unat b * 256 + unat c"
  have "n div 262144 < 64"
    unfolding n_def by (rule bytes3_div) (rule unat_byte_less)+
  then have "b2a (n div 262144) < 128" and "b2a ((n div 4096) mod 64) < 128"
    and "b2a ((n div 64) mod 64) < 128" and "b2a (n mod 64) < 128"
    by (simp_all add: b2a_ascii)
  with 4 have "list_all (\<lambda>c. c < 128)
               ([b2a (n div 262144), b2a ((n div 4096) mod 64), b2a ((n div 64) mod 64),
                 b2a (n mod 64)] @ b64encode rest)"
    by simp
  then show ?case
    by (simp only: b64encode.simps Let_def n_def)
qed

text \<open>
  C8. The explicit argument wins. When \<^verbatim>\<open>model_path\<close> is supplied, the environment is
  not consulted (no lookup event, and the result is the same under any environment),
  the call does exactly what the invocation step does with the supplied value, and
  the model argument of any command that is run is that value. The environment is
  looked up only when \<^verbatim>\<open>model_path\<close> is \<^verbatim>\<open>None\<close>, and then the model argument of a command
  that is run is the environment's value.
\<close>

theorem explicit_model_path_wins:
  fixes w :: world and "text" :: pystr and p :: pystr and options :: "LlamaZipOptions option"
    and llama_zip_bin :: pystr
  defines "opts \<equiv> (case options of None \<Rightarrow> LlamaZipOptions_default | Some x \<Rightarrow> x)"
  shows "IText2Bin (w\<lparr>environ_get := e\<rparr>) text (Some p) options llama_zip_bin
           = IText2Bin w text (Some p) options llama_zip_bin
         \<and> Ev_environ_get k \<notin> set (snd (IText2Bin w text (Some p) options llama_zip_bin))
         \<and> snd (IText2Bin w text (Some p) options llama_zip_bin)
           = snd (run_llama_zip_compress_base64 w text p opts llama_zip_bin)
         \<and> (Ev_run cmd input \<in> set (snd (IText2Bin w text (Some p) options llama_zip_bin))
              \<longrightarrow> cmd ! 1 = p)
         \<and> snd (IText2Bin w text None options llama_zip_bin)
           = Ev_environ_get ITEXT2BIN_MODEL_PATH
             # snd (run_llama_zip_compress_base64 w text
                      (or_empty (environ_get w ITEXT2BIN_MODEL_PATH)) opts llama_zip_bin)
         \<and> (Ev_run cmd input \<in> set (snd (IText2Bin w text None options llama_zip_bin))
              \<longrightarrow> environ_get w ITEXT2BIN_MODEL_PATH = Some (cmd ! 1))"
proof (intro conjI impI)
  show "IText2Bin (w\<lparr>environ_get := e\<rparr>) text (Some p) options llama_zip_bin
           = IText2Bin w text (Some p) options llama_zip_bin"
    by (simp add: IText2Bin_unfold Let_def run_environ_irrelevant)
  show s: "snd (IText2Bin w text (Some p) options llama_zip_bin)
           = snd (run_llama_zip_compress_base64 w text p opts llama_zip_bin)"
    by (simp add: IText2Bin_unfold Let_def opts_def)
  show "Ev_environ_get k \<notin> set (snd (IText2Bin w text (Some p) options llama_zip_bin))"
    unfolding s by (rule no_environ_get_run)
  show n: "snd (IText2Bin w text None options llama_zip_bin)
           = Ev_environ_get ITEXT2BIN_MODEL_PATH
             # snd (run_llama_zip_compress_base64 w text
                      (or_empty (environ_get w ITEXT2BIN_MODEL_PATH)) opts llama_zip_bin)"
    by (simp add: IText2Bin_unfold Let_def opts_def)
  {
    assume "Ev_run cmd input \<in> set (snd (IText2Bin w text (Some p) options llama_zip_bin))"
    then have "Ev_run cmd input
               \<in> set (snd (run_llama_zip_compress_base64 w text p opts llama_zip_bin))"
      by (simp only: s)
    with run_trace [of w "text" p opts llama_zip_bin]
    show "cmd ! 1 = p"
      by (auto simp: llama_zip_cmd_def)
  }
  {
    assume "Ev_run cmd input \<in> set (snd (IText2Bin w text None options llama_zip_bin))"
    then have "Ev_run cmd input
               \<in> set (snd (run_llama_zip_compress_base64 w text
                      (or_empty (environ_get w ITEXT2BIN_MODEL_PATH)) opts llama_zip_bin))"
      by (simp add: n)
    with run_trace [of w "text" "or_empty (environ_get w ITEXT2BIN_MODEL_PATH)" opts llama_zip_bin]
    have "cmd ! 1 = or_empty (environ_get w ITEXT2BIN_MODEL_PATH)"
      and "or_empty (environ_get w ITEXT2BIN_MODEL_PATH) \<noteq> []"
      by (auto simp: llama_zip_cmd_def)
    then show "environ_get w ITEXT2BIN_MODEL_PATH = Some (cmd ! 1)"
      by (auto simp: or_empty_def split: option.splits if_splits)
  }
qed

lemma run_world_env:
  assumes "model_path \<noteq> []"
  shows "snd (run_llama_zip_compress_base64 world_env (lit ''hi'') model_path
                LlamaZipOptions_default (lit ''llama-zip''))
         = [Ev_which (lit ''llama-zip''),
            Ev_run (llama_zip_cmd (lit ''/usr/local/bin/'' @ lit ''llama-zip'') model_path
                      LlamaZipOptions_default) [104, 105]]"
proof -
  have f: "which world_env (lit ''llama-zip'') = Some (lit ''/usr/local/bin/'' @ lit ''llama-zip'')"
    by (simp add: world_env_def which_found_def)
  have r: "subprocess_run world_env
             (llama_zip_cmd (lit ''/usr/local/bin/'' @ lit ''llama-zip'') model_path
                LlamaZipOptions_default) [104, 105]
           = Inr \<lparr>returncode = 0, stdout = [32, 81, 85, 74, 68, 10], stderr = []\<rparr>"
    by (simp add: world_env_def child_prints_QUJD_def)
  show ?thesis
    by (simp only: run_spawned [OF f lit_nonempty(2) assms utf8_encode_hi r] snd_conv)
qed

theorem explicit_model_path_wins_witness:
  "Ev_run (llama_zip_cmd (lit ''/usr/local/bin/'' @ lit ''llama-zip'') (lit ''m.gguf'')
             LlamaZipOptions_default) [104, 105]
     \<in> set (snd (IText2Bin world_env (lit ''hi'') (Some (lit ''m.gguf'')) None (lit ''llama-zip'')))
   \<and> llama_zip_cmd (lit ''/usr/local/bin/'' @ lit ''llama-zip'') (lit ''m.gguf'')
             LlamaZipOptions_default ! 1 = lit ''m.gguf''
   \<and> Ev_run (llama_zip_cmd (lit ''/usr/local/bin/'' @ lit ''llama-zip'')
             (lit ''/models/q4_k_m.gguf'') LlamaZipOptions_default) [104, 105]
     \<in> set (snd (IText2Bin world_env (lit ''hi'') None None (lit ''llama-zip'')))
   \<and> environ_get world_env ITEXT2BIN_MODEL_PATH
     = Some (llama_zip_cmd (lit ''/usr/local/bin/'' @ lit ''llama-zip'')
               (lit ''/models/q4_k_m.gguf'') LlamaZipOptions_default ! 1)"
proof -
  let ?exe = "lit ''/usr/local/bin/'' @ lit ''llama-zip''"
  let ?c1 = "llama_zip_cmd ?exe (lit ''m.gguf'') LlamaZipOptions_default"
  let ?c2 = "llama_zip_cmd ?exe (lit ''/models/q4_k_m.gguf'') LlamaZipOptions_default"
  have env: "or_empty (environ_get world_env ITEXT2BIN_MODEL_PATH) = lit ''/models/q4_k_m.gguf''"
    by (simp add: world_env_def environ_model_def or_empty_def)
  have ne: "lit ''/models/q4_k_m.gguf'' \<noteq> []"
    by (simp add: lit_def)
  note t1 = explicit_model_path_wins
              [of _ world_env "lit ''hi''" "lit ''m.gguf''" None "lit ''llama-zip''" _ ?c1 "[104, 105]"]
  note t2 = explicit_model_path_wins
              [of _ world_env "lit ''hi''" "lit ''m.gguf''" None "lit ''llama-zip''" _ ?c2 "[104, 105]"]
  from t1 have "snd (IText2Bin world_env (lit ''hi'') (Some (lit ''m.gguf'')) None (lit ''llama-zip''))
        = snd (run_llama_zip_compress_base64 world_env (lit ''hi'') (lit ''m.gguf'')
                 LlamaZipOptions_default (lit ''llama-zip''))"
    by simp
  then have m1: "Ev_run ?c1 [104, 105]
        \<in> set (snd (IText2Bin world_env (lit ''hi'') (Some (lit ''m.gguf'')) None (lit ''llama-zip'')))"
    by (simp add: run_world_env [OF lit_nonempty(1)])
  with t1 have a: "?c1 ! 1 = lit ''m.gguf''"
    by blast
  from t2 have "snd (IText2Bin world_env (lit ''hi'') None None (lit ''llama-zip''))
        = Ev_environ_get ITEXT2BIN_MODEL_PATH
          # snd (run_llama_zip_compress_base64 world_env (lit ''hi'')
                   (or_empty (environ_get world_env ITEXT2BIN_MODEL_PATH))
                   LlamaZipOptions_default (lit ''llama-zip''))"
    by simp
  then have m2: "Ev_run ?c2 [104, 105]
        \<in> set (snd (IText2Bin world_env (lit ''hi'') None None (lit ''llama-zip'')))"
    by (simp add: env run_world_env [OF ne])
  with t2 have b: "environ_get world_env ITEXT2BIN_MODEL_PATH = Some (?c2 ! 1)"
    by blast
  from m1 a m2 b show ?thesis by blast
qed

text \<open>
  C3. When the invocation step succeeds with base64 text \<open>t\<close>, \<open>t\<close> decodes to a
  payload and \<open>IText2Bin\<close> returns the base64 encoding of the framed payload, or the
  framer's error when the payload is too large. When the invocation step fails,
  \<open>IText2Bin\<close> fails with the very same error. A returned value consists of ASCII
  bytes, and the child process is run at most once: nothing is retried.
\<close>

theorem IText2Bin_reframes:
  fixes w :: world and "text" :: pystr and llama_zip_bin :: pystr
    and options :: "LlamaZipOptions option" and model_path :: "pystr option"
  defines "opts \<equiv> (case options of None \<Rightarrow> LlamaZipOptions_default | Some x \<Rightarrow> x)"
  defines "mp \<equiv> (case model_path of None \<Rightarrow> or_empty (environ_get w ITEXT2BIN_MODEL_PATH)
                   | Some p \<Rightarrow> p)"
  defines "step \<equiv> run_llama_zip_compress_base64 w text mp opts llama_zip_bin"
  defines "res \<equiv> IText2Bin w text model_path options llama_zip_bin"
  shows "(fst step = Inr t \<longrightarrow>
            (\<exists>payload. b64decode t = Inr payload
               \<and> fst res = (case frame_with_1byte_len_header payload of
                              Inl e \<Rightarrow> Inl e
                            | Inr framed \<Rightarrow> Inr (b64encode framed))))
         \<and> (fst step = Inl e \<longrightarrow> fst res = Inl e)
         \<and> (fst res = Inr out \<longrightarrow> list_all (\<lambda>c. c < 128) out)
         \<and> spawn_count (snd res) \<le> 1"
proof (intro conjI impI)
  have r: "fst res = (case fst step of
            Inl e \<Rightarrow> Inl e
          | Inr compressed_b64 \<Rightarrow>
              (case b64decode compressed_b64 of
                 Inl e \<Rightarrow> Inl e
               | Inr payload \<Rightarrow>
                   (case frame_with_1byte_len_header payload of
                      Inl e \<Rightarrow> Inl e
                    | Inr framed \<Rightarrow> Inr (b64encode framed))))"
    by (simp add: res_def step_def mp_def opts_def IText2Bin_unfold Let_def)
  {
    assume s: "fst step = Inr t"
    then obtain payload where p: "b64decode t = Inr payload"
      unfolding step_def using run_Inr_decodes by blast
    with s r show "\<exists>payload. b64decode t = Inr payload
               \<and> fst res = (case frame_with_1byte_len_header payload of
                              Inl e \<Rightarrow> Inl e
                            | Inr framed \<Rightarrow> Inr (b64encode framed))"
      by simp
  }
  {
    assume "fst step = Inl e"
    with r show "fst res = Inl e" by simp
  }
  {
    assume "fst res = Inr out"
    with r obtain framed where "out = b64encode framed"
      by (auto split: sum.splits)
    then show "list_all (\<lambda>c. c < 128) out"
      by (simp add: b64encode_ascii)
  }
  have "snd res = (case model_path of None \<Rightarrow> [Ev_environ_get ITEXT2BIN_MODEL_PATH] | Some p \<Rightarrow> [])
                  @ snd step"
    by (simp add: res_def step_def mp_def opts_def IText2Bin_unfold Let_def)
  then have "spawn_count (snd res) = spawn_count (snd step)"
    by (simp add: spawn_count_def split: option.splits)
  with spawn_count_run [of w "text" mp opts llama_zip_bin]
  show "spawn_count (snd res) \<le> 1"
    by (simp only: step_def)
qed

lemma run_world_ok:
  "fst (run_llama_zip_compress_base64 world_ok (lit ''hi'') (lit ''m.gguf'')
          LlamaZipOptions_default (lit ''llama-zip'')) = Inr [81, 85, 74, 68]"
proof -
  have f: "which world_ok (lit ''llama-zip'') = Some (lit ''/usr/local/bin/'' @ lit ''llama-zip'')"
    by (simp add: world_ok_def which_found_def)
  have r: "subprocess_run world_ok
             (llama_zip_cmd (lit ''/usr/local/bin/'' @ lit ''llama-zip'') (lit ''m.gguf'')
                LlamaZipOptions_default) [104, 105]
           = Inr \<lparr>returncode = 0, stdout = [32, 81, 85, 74, 68, 10], stderr = []\<rparr>"
    by (simp add: world_ok_def child_prints_QUJD_def)
  show ?thesis
    by (simp only: run_spawned [OF f lit_nonempty(2) lit_nonempty(1) utf8_encode_hi r] fst_conv
          completed_process.select_convs strip_QUJD b64decode_QUJD sum.disc if_False simp_thms)
qed

lemma run_world_failing:
  "fst (run_llama_zip_compress_base64 world_failing (lit ''hi'') (lit ''m.gguf'')
          LlamaZipOptions_default (lit ''llama-zip''))
   = Inl (RuntimeError (compression_failed_msg
        (llama_zip_cmd (lit ''/usr/local/bin/'' @ lit ''llama-zip'') (lit ''m.gguf'')
           LlamaZipOptions_default) 2 [98, 97, 100]))"
proof -
  have f: "which world_failing (lit ''llama-zip'') = Some (lit ''/usr/local/bin/'' @ lit ''llama-zip'')"
    by (simp add: world_failing_def which_found_def)
  have r: "subprocess_run world_failing
             (llama_zip_cmd (lit ''/usr/local/bin/'' @ lit ''llama-zip'') (lit ''m.gguf'')
                LlamaZipOptions_default) [104, 105]
           = Inr \<lparr>returncode = 2, stdout = [], stderr = [98, 97, 100]\<rparr>"
    by (simp add: world_failing_def child_exits_2_def)
  show ?thesis
    by (simp add: run_spawned [OF f lit_nonempty(2) lit_nonempty(1) utf8_encode_hi r])
qed

lemma frame_ABC: "frame_with_1byte_len_header [65, 66, 67] = Inr [3, 65, 66, 67]"
  by (simp add: frame_with_1byte_len_header_def)

theorem IText2Bin_reframes_witness:
  "fst (run_llama_zip_compress_base64 world_ok (lit ''hi'') (lit ''m.gguf'')
          LlamaZipOptions_default (lit ''llama-zip'')) = Inr [81, 85, 74, 68]
   \<and> fst (IText2Bin world_ok (lit ''hi'') (Some (lit ''m.gguf'')) None (lit ''llama-zip''))
       = Inr [65, 48, 70, 67, 81, 119, 61, 61]
   \<and> fst (IText2Bin world_failing (lit ''hi'') (Some (lit ''m.gguf'')) None (lit ''llama-zip''))
       = Inl (RuntimeError (compression_failed_msg
           (llama_zip_cmd (lit ''/usr/local/bin/'' @ lit ''llama-zip'') (lit ''m.gguf'')
              LlamaZipOptions_default) 2 [98, 97, 100]))"
proof -
  note ok = IText2Bin_reframes
              [of world_ok "lit ''hi''" "Some (lit ''m.gguf'')" None "lit ''llama-zip''"
                  "[81, 85, 74, 68]"]
  note failing = IText2Bin_reframes
              [of world_failing "lit ''hi''" "Some (lit ''m.gguf'')" None "lit ''llama-zip''" _
                  "RuntimeError (compression_failed_msg
                     (llama_zip_cmd (lit ''/usr/local/bin/'' @ lit ''llama-zip'') (lit ''m.gguf'')
                        LlamaZipOptions_default) 2 [98, 97, 100])"]
  from ok run_world_ok
  obtain payload where "b64decode [81, 85, 74, 68] = Inr payload"
    and r: "fst (IText2Bin world_ok (lit ''hi'') (Some (lit ''m.gguf'')) None (lit ''llama-zip''))
            = (case frame_with_1byte_len_header payload of
                 Inl e \<Rightarrow> Inl e
               | Inr framed \<Rightarrow> Inr (b64encode framed))"
    by (auto simp only: option.case)
  then have "payload = [65, 66, 67]"
    by (simp only: b64decode_QUJD sum.inject)
  with r have a: "fst (IText2Bin world_ok (lit ''hi'') (Some (lit ''m.gguf'')) None (lit ''llama-zip''))
            = Inr [65, 48, 70, 67, 81, 119, 61, 61]"
    by (simp only: frame_ABC sum.case b64encode_3ABC)
  from failing run_world_failing
  have b: "fst (IText2Bin world_failing (lit ''hi'') (Some (lit ''m.gguf'')) None (lit ''llama-zip''))
       = Inl (RuntimeError (compression_failed_msg
           (llama_zip_cmd (lit ''/usr/local/bin/'' @ lit ''llama-zip'') (lit ''m.gguf'')
              LlamaZipOptions_default) 2 [98, 97, 100]))"
    by (simp only: option.case simp_thms)
  from run_world_ok a b show ?thesis by blast
qed

end
